theory Spec2Isabelle
  imports Main
begin

section \<open>The session manager of the studio front end\<close>

text \<open>
  A shallow embedding of \<^verbatim>\<open>SessionManager\<close> in
  \<^verbatim>\<open>frontend/src/components/views/session/manager.tsx\<close>: the four asynchronous
  handlers (\<^verbatim>\<open>fetchSessions\<close>, \<^verbatim>\<open>handleSaveSession\<close>,
  \<^verbatim>\<open>handleDeleteSession\<close>, \<^verbatim>\<open>handleSelectSession\<close>) and the sidebar flag that
  is kept in local storage. The React state, the store, the message API, the console
  and the browser's local storage are fields of one state record; a handler is a function
  from that state to a completion (returned, or threw) and the new state.
\<close>

subsection \<open>Data model\<close>

text \<open>
  Modelled from the spec: the declaration of \<^verbatim>\<open>Session\<close> (\<^verbatim>\<open>types/datamodel\<close>) is
  not among the sources. A session has an identifier assigned by the backend (absent
  for a draft), an owner identifier and opaque content. \<^verbatim>\<open>Partial<Session>\<close> makes
  every field optional, so one record serves for both. Identifiers are integral
  JavaScript numbers.

  A session is a JavaScript object, and React compares the entries of a dependency array
  (line 49) with \<^verbatim>\<open>Object.is\<close>: two objects with equal fields are still two objects.
  The field \<open>object\<close> is that identity. No handler reads it; the objects of one response
  of the backend are numbered by the request and by their position in the response.
\<close>

record session_rec =
  sid :: "int option"
  owner :: "string option"
  content :: "string option"
  object :: "nat \<times> nat"

text \<open>
  Modelled from the spec: the user supplied by \<^verbatim>\<open>appContext\<close> (not among the
  sources) carries the user identifier \<^verbatim>\<open>email\<close>, which may be missing.
\<close>

record user_rec =
  email :: "string option"

datatype error = NetworkError | AuthError | NotFoundError | ValidationError | SyntaxError

text \<open>
  The flag \<^verbatim>\<open>isSidebarOpen\<close> holds whatever \<^verbatim>\<open>JSON.parse\<close> returned. The component
  looks at such a value in two ways only, its truthiness and its \<^verbatim>\<open>JSON.stringify\<close>
  text, so a value that is not a boolean is kept as exactly these two.
\<close>

datatype js_value = JSBoolean bool | JSNonBoolean bool string

datatype notification = ErrorMessage string | SuccessMessage string

datatype console_entry = LogEntry string | ErrorEntry string error

datatype api_call =
    ListSessions string
  | CreateSession session_rec string
  | UpdateSession int session_rec string
  | DeleteSession int string
  | GetSession int string

text \<open>
  \<^verbatim>\<open>sessionAPI\<close> (\<^verbatim>\<open>./api\<close>) is an external collaborator: each of its operations
  either resolves with a value or rejects with an error.
\<close>

record api =
  listSessions :: "string \<Rightarrow> error + session_rec list"
  createSession :: "session_rec \<Rightarrow> string \<Rightarrow> error + session_rec"
  updateSession :: "int \<Rightarrow> session_rec \<Rightarrow> string \<Rightarrow> error + session_rec"
  deleteSession :: "int \<Rightarrow> string \<Rightarrow> error + unit"
  getSession :: "int \<Rightarrow> string \<Rightarrow> error + session_rec"

record manager_state =
  isLoading :: bool
  isEditorOpen :: bool
  editingSession :: "session_rec option"
  isSidebarOpen :: js_value
  session :: "session_rec option"
  sessions :: "session_rec list"
  notifications :: "notification list"
  console :: "console_entry list"
  api_calls :: "api_call list"
  localStorage :: "string \<rightharpoonup> string"

subsection \<open>Statements that may throw\<close>

datatype 'a completion = Normal 'a | Throw error

type_synonym 'a action = "manager_state \<Rightarrow> 'a completion \<times> manager_state"

definition ret :: "'a \<Rightarrow> 'a action" where
  "ret x st = (Normal x, st)"

definition await :: "api_call \<Rightarrow> error + 'a \<Rightarrow> 'a action" where
  \<comment> \<open>the request is issued (and recorded); a rejected promise throws at the \<^verbatim>\<open>await\<close>\<close>
  "await c outcome st =
     ((case outcome of Inl e \<Rightarrow> Throw e | Inr v \<Rightarrow> Normal v),
      st\<lparr>api_calls := api_calls st @ [c]\<rparr>)"

definition bind_action :: "'a action \<Rightarrow> ('a \<Rightarrow> 'b action) \<Rightarrow> 'b action" where
  "bind_action m f st =
     (case m st of (Normal x, st1) \<Rightarrow> f x st1 | (Throw e, st1) \<Rightarrow> (Throw e, st1))"

fun block :: "unit action list \<Rightarrow> unit action" where
  "block [] st = (Normal (), st)"
| "block (a # as) st =
     (case a st of (Normal _, st1) \<Rightarrow> block as st1 | (Throw e, st1) \<Rightarrow> (Throw e, st1))"

definition if_then :: "bool \<Rightarrow> unit action \<Rightarrow> unit action" where
  "if_then b a st = (if b then a st else (Normal (), st))"

definition try_catch :: "unit action \<Rightarrow> (error \<Rightarrow> unit action) \<Rightarrow> unit action" where
  "try_catch body handler st =
     (case body st of (Normal x, st1) \<Rightarrow> (Normal x, st1) | (Throw e, st1) \<Rightarrow> handler e st1)"

definition try_catch_finally ::
  "unit action \<Rightarrow> (error \<Rightarrow> unit action) \<Rightarrow> unit action \<Rightarrow> unit action" where
  "try_catch_finally body handler finalizer st =
     (case try_catch body handler st of
        (c, st1) \<Rightarrow>
          (case finalizer st1 of
             (Normal _, st2) \<Rightarrow> (c, st2)
           | (Throw e, st2) \<Rightarrow> (Throw e, st2)))"

definition setIsLoading :: "bool \<Rightarrow> unit action" where
  "setIsLoading b st = (Normal (), st\<lparr>isLoading := b\<rparr>)"

definition setIsEditorOpen :: "bool \<Rightarrow> unit action" where
  "setIsEditorOpen b st = (Normal (), st\<lparr>isEditorOpen := b\<rparr>)"

definition setEditingSession :: "session_rec option \<Rightarrow> unit action" where
  "setEditingSession e st = (Normal (), st\<lparr>editingSession := e\<rparr>)"

definition setSession :: "session_rec option \<Rightarrow> unit action" where
  "setSession s st = (Normal (), st\<lparr>session := s\<rparr>)"

definition setSessions :: "session_rec list \<Rightarrow> unit action" where
  "setSessions xs st = (Normal (), st\<lparr>sessions := xs\<rparr>)"

definition message_error :: "string \<Rightarrow> unit action" where
  "message_error m st = (Normal (), st\<lparr>notifications := notifications st @ [ErrorMessage m]\<rparr>)"

definition message_success :: "string \<Rightarrow> unit action" where
  "message_success m st =
     (Normal (), st\<lparr>notifications := notifications st @ [SuccessMessage m]\<rparr>)"

definition console_log :: "string \<Rightarrow> unit action" where
  "console_log m st = (Normal (), st\<lparr>console := console st @ [LogEntry m]\<rparr>)"

definition console_error :: "string \<Rightarrow> error \<Rightarrow> unit action" where
  "console_error m e st = (Normal (), st\<lparr>console := console st @ [ErrorEntry m e]\<rparr>)"

subsection \<open>JavaScript tests on optional values\<close>

definition no_email :: "user_rec option \<Rightarrow> bool" where
  \<comment> \<open>\<^verbatim>\<open>!user?.email\<close>: no user, no email, or the empty string\<close>
  "no_email user =
     (case user of None \<Rightarrow> True
      | Some u \<Rightarrow> (case email u of None \<Rightarrow> True | Some e \<Rightarrow> e = []))"

definition email_of :: "user_rec option \<Rightarrow> string" where
  \<comment> \<open>\<^verbatim>\<open>user.email\<close>, read only behind the guard \<^verbatim>\<open>!user?.email\<close>\<close>
  "email_of user =
     (case user of None \<Rightarrow> []
      | Some u \<Rightarrow> (case email u of None \<Rightarrow> [] | Some e \<Rightarrow> e))"

definition no_id :: "session_rec \<Rightarrow> bool" where
  \<comment> \<open>\<^verbatim>\<open>!s.id\<close>: the identifier is missing or is the number 0\<close>
  "no_id s = (case sid s of None \<Rightarrow> True | Some i \<Rightarrow> i = 0)"

definition id_of :: "session_rec \<Rightarrow> int" where
  \<comment> \<open>\<^verbatim>\<open>s.id\<close>, read only where it is truthy\<close>
  "id_of s = (case sid s of None \<Rightarrow> 0 | Some i \<Rightarrow> i)"

definition optional_id :: "session_rec option \<Rightarrow> int option" where
  \<comment> \<open>\<^verbatim>\<open>session?.id\<close>: \<^verbatim>\<open>undefined\<close> when there is no session\<close>
  "optional_id s = (case s of None \<Rightarrow> None | Some x \<Rightarrow> sid x)"

definition first_or_null :: "session_rec list \<Rightarrow> session_rec option" where
  \<comment> \<open>\<^verbatim>\<open>sessions[0] || null\<close>\<close>
  "first_or_null xs = (case xs of [] \<Rightarrow> None | x # _ \<Rightarrow> Some x)"

subsection \<open>The handlers\<close>

text \<open>
  A handler is a closure of the render that created it: \<^verbatim>\<open>user\<close>, \<^verbatim>\<open>session\<close> and
  \<^verbatim>\<open>sessions\<close> inside it are the values of that render, whatever the setters have
  stored since. The two store values are therefore read once, from the state the
  handler starts in.
\<close>

definition fetchSessions :: "api \<Rightarrow> user_rec option \<Rightarrow> unit action" where
  \<comment> \<open>\<^verbatim>\<open>manager.tsx\<close>, lines 33-49\<close>
  "fetchSessions api user st =
     (let session_r = session st in
      if no_email user then ret () st
      else
        try_catch_finally
          (block
            [setIsLoading True,
             bind_action
               (await (ListSessions (email_of user)) (listSessions api (email_of user)))
               (\<lambda>data. block
                  [setSessions data,
                   if_then (session_r = None \<and> length data > 0) (setSession (Some (data ! 0)))])])
          (\<lambda>e. block
             [console_error ''Error fetching sessions:'' e,
              message_error ''Error loading sessions''])
          (setIsLoading False)
          st)"

definition handleSaveSession :: "api \<Rightarrow> user_rec option \<Rightarrow> session_rec \<Rightarrow> unit action" where
  \<comment> \<open>\<^verbatim>\<open>manager.tsx\<close>, lines 51-76\<close>
  "handleSaveSession api user sessionData st =
     (let session_r = session st; sessions_r = sessions st in
      if no_email user then ret () st
      else
        try_catch
          (block
            [if \<not> no_id sessionData then
               bind_action
                 (await (UpdateSession (id_of sessionData) sessionData (email_of user))
                    (updateSession api (id_of sessionData) sessionData (email_of user)))
                 (\<lambda>updated. block
                    [setSessions (map (\<lambda>s. if sid s = sid updated then updated else s) sessions_r),
                     if_then (optional_id session_r = sid updated) (setSession (Some updated))])
             else
               bind_action
                 (await (CreateSession sessionData (email_of user))
                    (createSession api sessionData (email_of user)))
                 (\<lambda>created. block
                    [setSessions (created # sessions_r),
                     setSession (Some created)]),
             setIsEditorOpen False,
             setEditingSession None])
          (\<lambda>e. block
             [message_error ''Error saving session'',
              console_error [] e])
          st)"

definition handleDeleteSession :: "api \<Rightarrow> user_rec option \<Rightarrow> int \<Rightarrow> unit action" where
  \<comment> \<open>\<^verbatim>\<open>manager.tsx\<close>, lines 78-93\<close>
  "handleDeleteSession api user sessionId st =
     (let session_r = session st; sessions_r = sessions st in
      if no_email user then ret () st
      else
        try_catch
          (bind_action
             (await (DeleteSession sessionId (email_of user))
                (deleteSession api sessionId (email_of user)))
             (\<lambda>response. block
                [console_log ''response'',
                 setSessions (filter (\<lambda>s. sid s \<noteq> Some sessionId) sessions_r),
                 if_then (optional_id session_r = Some sessionId \<or> length sessions_r = 0)
                   (setSession (first_or_null sessions_r)),
                 message_success ''Session deleted'']))
          (\<lambda>e. block
             [console_error ''Error deleting session:'' e,
              message_error ''Error deleting session''])
          st)"

definition handleSelectSession :: "api \<Rightarrow> user_rec option \<Rightarrow> session_rec \<Rightarrow> unit action" where
  \<comment> \<open>\<^verbatim>\<open>manager.tsx\<close>, lines 95-108\<close>
  "handleSelectSession api user selectedSession st =
     (if no_email user \<or> no_id selectedSession then ret () st
      else
        try_catch_finally
          (block
            [setIsLoading True,
             bind_action
               (await (GetSession (id_of selectedSession) (email_of user))
                  (getSession api (id_of selectedSession) (email_of user)))
               (\<lambda>data. setSession (Some data))])
          (\<lambda>e. block
             [console_error ''Error loading session:'' e,
              message_error ''Error loading session''])
          (setIsLoading False)
          st)"

subsection \<open>The sidebar flag and local storage\<close>

definition truthy :: "js_value \<Rightarrow> bool" where
  "truthy v = (case v of JSBoolean b \<Rightarrow> b | JSNonBoolean t _ \<Rightarrow> t)"

definition JSON_stringify :: "js_value \<Rightarrow> string" where
  "JSON_stringify v =
     (case v of JSBoolean b \<Rightarrow> (if b then ''true'' else ''false'') | JSNonBoolean _ text \<Rightarrow> text)"

definition json_whitespace :: "char \<Rightarrow> bool" where
  "json_whitespace c = (c \<in> set [CHR 0x20, CHR 0x09, CHR 0x0A, CHR 0x0D])"

definition starts_json_value :: "char \<Rightarrow> bool" where
  "starts_json_value c = (c \<in> set (CHR 0x22 # ''{[-0123456789tfn''))"

definition JSON_parse :: "(string \<Rightarrow> error + js_value) \<Rightarrow> string \<Rightarrow> error + js_value" where
  \<comment> \<open>\<^verbatim>\<open>JSON.parse\<close> of the platform, fixed where the component depends on it: the two
     texts a boolean is written as give that boolean, and a text with no first token of a
     JSON value (empty, blank, or beginning with any other character) is a
     \<^verbatim>\<open>SyntaxError\<close>. On every other text the answer is the parameter \<open>other\<close>.\<close>
  "JSON_parse other text =
     (let body = dropWhile json_whitespace text in
      if body = [] \<or> \<not> starts_json_value (hd body) then Inl SyntaxError
      else if text = ''true'' then Inr (JSBoolean True)
      else if text = ''false'' then Inr (JSBoolean False)
      else other text)"

definition initialSidebarOpen ::
  "(string \<Rightarrow> error + js_value) \<Rightarrow> bool \<Rightarrow> (string \<rightharpoonup> string) \<Rightarrow> error + js_value" where
  \<comment> \<open>the initializer of \<^verbatim>\<open>useState\<close>, lines 15-21; \<open>window_defined\<close> is
     \<^verbatim>\<open>typeof window !== "undefined"\<close>\<close>
  "initialSidebarOpen other window_defined storage =
     (if window_defined then
        (let stored = storage ''sessionSidebar'' in
         case stored of
           Some text \<Rightarrow> JSON_parse other text
         | None \<Rightarrow> Inr (JSBoolean True))
      else Inr (JSBoolean True))"

definition sidebarEffect :: "bool \<Rightarrow> manager_state \<Rightarrow> manager_state" where
  \<comment> \<open>the effect on \<^verbatim>\<open>[isSidebarOpen]\<close>, lines 27-31\<close>
  "sidebarEffect window_defined st =
     (if window_defined then
        st\<lparr>localStorage := (localStorage st)(''sessionSidebar'' \<mapsto> JSON_stringify (isSidebarOpen st))\<rparr>
      else st)"

definition onToggle :: "bool \<Rightarrow> manager_state \<Rightarrow> manager_state" where
  \<comment> \<open>\<^verbatim>\<open>setIsSidebarOpen(!isSidebarOpen)\<close> (line 126), then the effect of the render
     that follows\<close>
  "onToggle window_defined st =
     sidebarEffect window_defined (st\<lparr>isSidebarOpen := JSBoolean (\<not> truthy (isSidebarOpen st))\<rparr>)"

subsection \<open>Sequences of user gestures\<close>

text \<open>
  A gesture runs a handler, and the render that follows may run the effect of lines
  110-112: \<^verbatim>\<open>fetchSessions\<close> is made anew when one of its dependencies (line 49) is
  another value than in the render before, and the effect then calls it. Over a sequence
  of gestures of one user the dependency that changes is \<^verbatim>\<open>session\<close>, compared as an
  object. Every response of the backend is decoded into new objects: those of the
  response to request number \<open>k\<close> (counted from 1 in the log of requests) are
  \<open>(k, 0), (k, 1), \<dots>\<close>, and the objects a sequence starts with are those numbered 0.
\<close>

datatype gesture = Save session_rec | Delete int

fun numbered :: "nat \<Rightarrow> nat \<Rightarrow> session_rec list \<Rightarrow> session_rec list" where
  "numbered k j [] = []"
| "numbered k j (s # ss) = s\<lparr>object := (k, j)\<rparr> # numbered k (Suc j) ss"

definition decoded :: "nat \<Rightarrow> api \<Rightarrow> api" where
  \<comment> \<open>the backend \<open>api\<close>, its responses to request number \<open>k\<close> as new objects\<close>
  "decoded k api =
     \<lparr>listSessions = (\<lambda>userId.
        case listSessions api userId of Inl e \<Rightarrow> Inl e | Inr xs \<Rightarrow> Inr (numbered k 0 xs)),
      createSession = (\<lambda>d userId.
        case createSession api d userId of
          Inl e \<Rightarrow> Inl e | Inr x \<Rightarrow> Inr (x\<lparr>object := (k, 0)\<rparr>)),
      updateSession = (\<lambda>i d userId.
        case updateSession api i d userId of
          Inl e \<Rightarrow> Inl e | Inr x \<Rightarrow> Inr (x\<lparr>object := (k, 0)\<rparr>)),
      deleteSession = deleteSession api,
      getSession = (\<lambda>i userId.
        case getSession api i userId of
          Inl e \<Rightarrow> Inl e | Inr x \<Rightarrow> Inr (x\<lparr>object := (k, 0)\<rparr>))\<rparr>"

definition next_request :: "manager_state \<Rightarrow> nat" where
  "next_request st = Suc (length (api_calls st))"

fun handler_step :: "user_rec option \<Rightarrow> api \<times> gesture \<Rightarrow> manager_state \<Rightarrow> manager_state" where
  \<comment> \<open>the handler of one gesture, answered by the backend as \<open>api\<close> says at that moment\<close>
  "handler_step user (api, Save sessionData) st =
     snd (handleSaveSession (decoded (next_request st) api) user sessionData st)"
| "handler_step user (api, Delete sessionId) st =
     snd (handleDeleteSession (decoded (next_request st) api) user sessionId st)"

definition effect_fetches ::
  "user_rec option \<Rightarrow> api \<Rightarrow> manager_state \<Rightarrow> manager_state \<Rightarrow> manager_state list" where
  \<comment> \<open>the runs of the effect (lines 110-112) after a handler took the state from
     \<open>before\<close> to \<open>after\<close>, each with the state it ends in. When \<^verbatim>\<open>session\<close> is
     another object, \<^verbatim>\<open>fetchSessions\<close> runs; when that run selects a session itself
     (line 41) it runs once more, and then \<^verbatim>\<open>session\<close> is set and stays.\<close>
  "effect_fetches user api before after =
     (if session after = session before then []
      else
        let st1 = snd (fetchSessions (decoded (next_request after) api) user after) in
        if session st1 = session after then [st1]
        else [st1, snd (fetchSessions (decoded (next_request st1) api) user st1)])"

definition gesture_states ::
  "user_rec option \<Rightarrow> api \<times> gesture \<Rightarrow> manager_state \<Rightarrow> manager_state list" where
  \<comment> \<open>the state when the handler of the gesture has returned, then the state after each
     run of the effect\<close>
  "gesture_states user g st =
     handler_step user g st # effect_fetches user (fst g) st (handler_step user g st)"

definition gesture_step :: "user_rec option \<Rightarrow> api \<times> gesture \<Rightarrow> manager_state \<Rightarrow> manager_state" where
  \<comment> \<open>the state in which the next gesture finds the manager\<close>
  "gesture_step user g st = last (gesture_states user g st)"

fun visited :: "user_rec option \<Rightarrow> (api \<times> gesture) list \<Rightarrow> manager_state \<Rightarrow> manager_state list" where
  \<comment> \<open>the states the manager goes through, the first one included\<close>
  "visited user [] st = [st]"
| "visited user (g # gs) st =
     st # butlast (gesture_states user g st) @ visited user gs (gesture_step user g st)"

definition created_fresh :: "user_rec option \<Rightarrow> api \<times> gesture \<Rightarrow> manager_state \<Rightarrow> bool" where
  \<comment> \<open>when the gesture is a create that the backend accepts, the session it returns
     carries an identifier that no session of the list has at that moment\<close>
  "created_fresh user g st =
     (case snd g of
        Save sessionData \<Rightarrow>
          (if \<not> no_email user \<and> no_id sessionData then
             (case createSession (fst g) sessionData (email_of user) of
                Inl e \<Rightarrow> True
              | Inr created \<Rightarrow> sid created \<notin> set (map sid (sessions st)))
           else True)
      | Delete sessionId \<Rightarrow> True)"

definition listed_distinct :: "user_rec option \<Rightarrow> api \<times> gesture \<Rightarrow> manager_state \<Rightarrow> bool" where
  \<comment> \<open>when the effect runs after the gesture, the list that \<^verbatim>\<open>listSessions\<close> returns
     has pairwise distinct identifiers\<close>
  "listed_distinct user g st =
     (if effect_fetches user (fst g) st (handler_step user g st) = [] then True
      else
        (case listSessions (fst g) (email_of user) of
           Inl e \<Rightarrow> True
         | Inr data \<Rightarrow> distinct (map sid data)))"

fun backend_ids_fit :: "user_rec option \<Rightarrow> (api \<times> gesture) list \<Rightarrow> manager_state \<Rightarrow> bool" where
  \<comment> \<open>both conditions on the answers of the backend, at every gesture of the sequence\<close>
  "backend_ids_fit user [] st = True"
| "backend_ids_fit user (g # gs) st =
     (created_fresh user g st \<and> listed_distinct user g st
      \<and> backend_ids_fit user gs (gesture_step user g st))"

subsection \<open>Sample values\<close>

definition alice :: "user_rec option" where
  "alice = Some \<lparr>email = Some ''alice@example.com''\<rparr>"

definition visitor :: "user_rec option" where
  \<comment> \<open>a user whose email is the empty string\<close>
  "visitor = Some \<lparr>email = Some []\<rparr>"

definition session_A :: session_rec where
  "session_A = \<lparr>sid = Some 1, owner = Some ''alice@example.com'', content = Some ''A'',
      object = (0, 0)\<rparr>"

definition session_B :: session_rec where
  "session_B = \<lparr>sid = Some 2, owner = Some ''alice@example.com'', content = Some ''B'',
      object = (0, 1)\<rparr>"

definition draft_C :: session_rec where
  "draft_C = \<lparr>sid = None, owner = None, content = Some ''C'', object = (0, 2)\<rparr>"

definition edit_B :: session_rec where
  "edit_B = \<lparr>sid = Some 2, owner = None, content = Some ''B, renamed'', object = (0, 3)\<rparr>"

definition summary_zero :: session_rec where
  \<comment> \<open>a session whose identifier is the number 0\<close>
  "summary_zero = \<lparr>sid = Some 0, owner = None, content = Some ''Z'', object = (0, 4)\<rparr>"

definition api_accepting :: api where
  "api_accepting =
     \<lparr>listSessions = (\<lambda>userId. Inr [session_A, session_B]),
      createSession = (\<lambda>d userId. Inr (d\<lparr>sid := Some 3, owner := Some userId\<rparr>)),
      updateSession = (\<lambda>i d userId. Inr (d\<lparr>sid := Some i, owner := Some userId\<rparr>)),
      deleteSession = (\<lambda>i userId. Inr ()),
      getSession = (\<lambda>i userId.
        Inr \<lparr>sid = Some i, owner = Some userId, content = Some ''full record'',
             object = (0, 5)\<rparr>)\<rparr>"

definition api_failing :: api where
  "api_failing =
     \<lparr>listSessions = (\<lambda>userId. Inl NetworkError),
      createSession = (\<lambda>d userId. Inl ValidationError),
      updateSession = (\<lambda>i d userId. Inl NotFoundError),
      deleteSession = (\<lambda>i userId. Inl NotFoundError),
      getSession = (\<lambda>i userId. Inl NotFoundError)\<rparr>"

definition api_reusing_id :: api where
  \<comment> \<open>a backend whose create answers with an identifier that is already in use\<close>
  "api_reusing_id = api_accepting\<lparr>createSession := (\<lambda>d userId. Inr (d\<lparr>sid := Some 1\<rparr>))\<rparr>"

definition state_AB :: manager_state where
  \<comment> \<open>list = [A, B], current = A, the editor open\<close>
  "state_AB =
     \<lparr>isLoading = False, isEditorOpen = True, editingSession = None,
      isSidebarOpen = JSBoolean True, session = Some session_A,
      sessions = [session_A, session_B], notifications = [], console = [],
      api_calls = [], localStorage = Map.empty\<rparr>"

definition state_empty :: manager_state where
  \<comment> \<open>nothing loaded, nothing selected\<close>
  "state_empty = state_AB\<lparr>session := None, sessions := []\<rparr>"

definition other_texts :: "string \<Rightarrow> error + js_value" where
  \<comment> \<open>a completion of \<^const>\<open>JSON_parse\<close> for evaluation: every text it is asked about
     is taken for a truthy value that is not a boolean\<close>
  "other_texts text = Inr (JSNonBoolean True text)"

definition three_gestures :: "(api \<times> gesture) list" where
  \<comment> \<open>create C, update B, delete A\<close>
  "three_gestures =
     [(api_accepting, Save draft_C), (api_accepting, Save edit_B), (api_accepting, Delete 1)]"

subsection \<open>A failure that stays inside its handler\<close>

definition failure_contained ::
  "unit completion \<times> manager_state \<Rightarrow> manager_state \<Rightarrow> string \<Rightarrow> bool" where
  \<comment> \<open>the handler returned normally, the list and the current session are those of
     \<open>st\<close>, and one error notification with text \<open>msg\<close> was added\<close>
  "failure_contained r st msg =
     (fst r = Normal ()
      \<and> sessions (snd r) = sessions st
      \<and> session (snd r) = session st
      \<and> notifications (snd r) = notifications st @ [ErrorMessage msg])"

section \<open>Properties\<close>

subsection \<open>What each handler does, case by case\<close>

lemmas action_defs = ret_def await_def bind_action_def if_then_def try_catch_def
  try_catch_finally_def setIsLoading_def setIsEditorOpen_def setEditingSession_def
  setSession_def setSessions_def message_error_def message_success_def console_log_def
  console_error_def Let_def

lemmas sample_defs = alice_def visitor_def session_A_def session_B_def draft_C_def edit_B_def
  summary_zero_def api_accepting_def api_failing_def api_reusing_id_def state_AB_def
  state_empty_def other_texts_def three_gestures_def no_email_def email_of_def no_id_def
  id_of_def optional_id_def first_or_null_def

lemmas sequence_defs = decoded_def next_request_def effect_fetches_def gesture_states_def
  gesture_step_def

lemma has_email:
  "user = Some u \<Longrightarrow> email u = Some m \<Longrightarrow> m \<noteq> [] \<Longrightarrow> \<not> no_email user \<and> email_of user = m"
  by (simp add: no_email_def email_of_def)

lemma has_id: "sid s = Some i \<Longrightarrow> i \<noteq> 0 \<Longrightarrow> \<not> no_id s \<and> id_of s = i"
  by (simp add: no_id_def id_of_def)

lemma lacks_id: "sid s = None \<or> sid s = Some 0 \<Longrightarrow> no_id s"
  by (auto simp add: no_id_def)

lemma save_update_ok:
  assumes "\<not> no_email user" "\<not> no_id d"
    and "updateSession api (id_of d) d (email_of user) = Inr u"
  shows "fst (handleSaveSession api user d st) = Normal ()"
    and "sessions (snd (handleSaveSession api user d st)) =
           map (\<lambda>s. if sid s = sid u then u else s) (sessions st)"
    and "session (snd (handleSaveSession api user d st)) =
           (if optional_id (session st) = sid u then Some u else session st)"
  using assms by (simp_all add: handleSaveSession_def action_defs)

lemma save_create_ok:
  assumes "\<not> no_email user" "no_id d" "createSession api d (email_of user) = Inr c"
  shows "fst (handleSaveSession api user d st) = Normal ()"
    and "sessions (snd (handleSaveSession api user d st)) = c # sessions st"
    and "session (snd (handleSaveSession api user d st)) = Some c"
    and "isEditorOpen (snd (handleSaveSession api user d st)) = False"
    and "editingSession (snd (handleSaveSession api user d st)) = None"
  using assms by (simp_all add: handleSaveSession_def action_defs)

lemma save_fail:
  assumes "\<not> no_email user"
    and "if no_id d then createSession api d (email_of user) = Inl e
         else updateSession api (id_of d) d (email_of user) = Inl e"
  shows "fst (handleSaveSession api user d st) = Normal ()"
    and "sessions (snd (handleSaveSession api user d st)) = sessions st"
    and "session (snd (handleSaveSession api user d st)) = session st"
    and "isEditorOpen (snd (handleSaveSession api user d st)) = isEditorOpen st"
    and "editingSession (snd (handleSaveSession api user d st)) = editingSession st"
    and "notifications (snd (handleSaveSession api user d st)) =
           notifications st @ [ErrorMessage ''Error saving session'']"
  using assms by (simp_all add: handleSaveSession_def action_defs split: if_splits)

lemma delete_ok:
  assumes "\<not> no_email user" "deleteSession api i (email_of user) = Inr r"
  shows "fst (handleDeleteSession api user i st) = Normal ()"
    and "sessions (snd (handleDeleteSession api user i st)) =
           filter (\<lambda>s. sid s \<noteq> Some i) (sessions st)"
    and "session (snd (handleDeleteSession api user i st)) =
           (if optional_id (session st) = Some i \<or> sessions st = []
            then first_or_null (sessions st) else session st)"
  using assms by (simp_all add: handleDeleteSession_def action_defs)

lemma delete_fail:
  assumes "\<not> no_email user" "deleteSession api i (email_of user) = Inl e"
  shows "fst (handleDeleteSession api user i st) = Normal ()"
    and "sessions (snd (handleDeleteSession api user i st)) = sessions st"
    and "session (snd (handleDeleteSession api user i st)) = session st"
    and "notifications (snd (handleDeleteSession api user i st)) =
           notifications st @ [ErrorMessage ''Error deleting session'']"
  using assms by (simp_all add: handleDeleteSession_def action_defs)

lemma fetch_ok:
  assumes "\<not> no_email user" "listSessions api (email_of user) = Inr data"
  shows "fst (fetchSessions api user st) = Normal ()"
    and "sessions (snd (fetchSessions api user st)) = data"
    and "session (snd (fetchSessions api user st)) =
           (if session st = None \<and> data \<noteq> [] then Some (data ! 0) else session st)"
    and "api_calls (snd (fetchSessions api user st)) =
           api_calls st @ [ListSessions (email_of user)]"
  using assms by (simp_all add: fetchSessions_def action_defs)

lemma fetch_fail:
  assumes "\<not> no_email user" "listSessions api (email_of user) = Inl e"
  shows "fst (fetchSessions api user st) = Normal ()"
    and "sessions (snd (fetchSessions api user st)) = sessions st"
    and "session (snd (fetchSessions api user st)) = session st"
    and "notifications (snd (fetchSessions api user st)) =
           notifications st @ [ErrorMessage ''Error loading sessions'']"
    and "api_calls (snd (fetchSessions api user st)) =
           api_calls st @ [ListSessions (email_of user)]"
  using assms by (simp_all add: fetchSessions_def action_defs)

lemma select_ok:
  assumes "\<not> no_email user" "\<not> no_id s"
    and "getSession api (id_of s) (email_of user) = Inr data"
  shows "fst (handleSelectSession api user s st) = Normal ()"
    and "sessions (snd (handleSelectSession api user s st)) = sessions st"
    and "session (snd (handleSelectSession api user s st)) = Some data"
    and "api_calls (snd (handleSelectSession api user s st)) =
           api_calls st @ [GetSession (id_of s) (email_of user)]"
  using assms by (simp_all add: handleSelectSession_def action_defs)

lemma select_fail:
  assumes "\<not> no_email user" "\<not> no_id s"
    and "getSession api (id_of s) (email_of user) = Inl e"
  shows "fst (handleSelectSession api user s st) = Normal ()"
    and "sessions (snd (handleSelectSession api user s st)) = sessions st"
    and "session (snd (handleSelectSession api user s st)) = session st"
    and "notifications (snd (handleSelectSession api user s st)) =
           notifications st @ [ErrorMessage ''Error loading session'']"
    and "api_calls (snd (handleSelectSession api user s st)) =
           api_calls st @ [GetSession (id_of s) (email_of user)]"
  using assms by (simp_all add: handleSelectSession_def action_defs)

lemma guard_returns:
  assumes "no_email user"
  shows "fetchSessions api user st = (Normal (), st)"
    and "handleSaveSession api user d st = (Normal (), st)"
    and "handleDeleteSession api user i st = (Normal (), st)"
    and "handleSelectSession api user s st = (Normal (), st)"
  using assms
  by (simp_all add: fetchSessions_def handleSaveSession_def handleDeleteSession_def
      handleSelectSession_def ret_def)

lemma save_keeps_distinct:
  assumes "distinct (map sid (sessions st))"
    and "\<not> no_email user \<and> no_id d \<longrightarrow>
           (case createSession api d (email_of user) of
              Inl e \<Rightarrow> True
            | Inr c \<Rightarrow> sid c \<notin> set (map sid (sessions st)))"
  shows "distinct (map sid (sessions (snd (handleSaveSession api user d st))))"
proof -
  have same: "sid \<circ> (\<lambda>s. if sid s = sid u then u else s) = sid" for u :: session_rec
    by (auto simp add: fun_eq_iff)
  show ?thesis
    using assms by (auto simp add: handleSaveSession_def action_defs same split: sum.splits)
qed

lemma delete_keeps_distinct:
  assumes "distinct (map sid (sessions st))"
  shows "distinct (map sid (sessions (snd (handleDeleteSession api user i st))))"
  using assms
  by (auto simp add: handleDeleteSession_def action_defs distinct_map_filter split: sum.splits)

lemma sid_numbered: "map sid (numbered k j xs) = map sid xs"
  by (induction xs arbitrary: j) simp_all

lemma fetch_sessions:
  "sessions (snd (fetchSessions api user st)) =
     (if no_email user then sessions st
      else case listSessions api (email_of user) of Inl e \<Rightarrow> sessions st | Inr data \<Rightarrow> data)"
  by (simp add: fetchSessions_def action_defs split: sum.splits)

lemma fetch_keeps_distinct:
  assumes "distinct (map sid (sessions st))"
    and "case listSessions api (email_of user) of
           Inl e \<Rightarrow> True | Inr data \<Rightarrow> distinct (map sid data)"
  shows "distinct (map sid (sessions (snd (fetchSessions (decoded k api) user st))))"
  using assms
  by (simp add: fetch_sessions decoded_def sid_numbered split: sum.splits)

lemma second_fetch_keeps_session:
  assumes "session (snd (fetchSessions api user st)) \<noteq> session st"
  shows "session (snd (fetchSessions api' user (snd (fetchSessions api user st)))) =
           session (snd (fetchSessions api user st))"
proof -
  from assms have "session (snd (fetchSessions api user st)) \<noteq> None"
    by (auto simp add: fetchSessions_def action_defs split: sum.splits if_splits)
  then show ?thesis
    by (auto simp add: fetchSessions_def [of api'] action_defs split: sum.splits)
qed

lemma handler_step_keeps_distinct:
  assumes "distinct (map sid (sessions st))" and "created_fresh user g st"
  shows "distinct (map sid (sessions (handler_step user g st)))"
proof -
  obtain api k where g: "g = (api, k)" by (cases g)
  show ?thesis
  proof (cases k)
    case (Save d)
    from assms(2) g Save
    have "\<not> no_email user \<and> no_id d \<longrightarrow>
           (case createSession (decoded (next_request st) api) d (email_of user) of
              Inl e \<Rightarrow> True
            | Inr c \<Rightarrow> sid c \<notin> set (map sid (sessions st)))"
      by (auto simp add: created_fresh_def decoded_def split: sum.splits)
    from save_keeps_distinct [OF assms(1) this] g Save show ?thesis by simp
  next
    case (Delete i)
    with g assms(1) show ?thesis by (simp add: delete_keeps_distinct)
  qed
qed

lemma gesture_states_keep_distinct:
  assumes "distinct (map sid (sessions st))"
    and "created_fresh user g st" and "listed_distinct user g st"
  shows "\<forall>s \<in> set (gesture_states user g st). distinct (map sid (sessions s))"
proof -
  let ?after = "handler_step user g st"
  have h: "distinct (map sid (sessions ?after))"
    using assms(1,2) by (rule handler_step_keeps_distinct)
  show ?thesis
  proof (cases "effect_fetches user (fst g) st ?after = []")
    case True
    with h show ?thesis by (simp add: gesture_states_def)
  next
    case False
    with assms(3) have l: "case listSessions (fst g) (email_of user) of
        Inl e \<Rightarrow> True | Inr data \<Rightarrow> distinct (map sid data)"
      by (simp add: listed_distinct_def)
    let ?st1 = "snd (fetchSessions (decoded (next_request ?after) (fst g)) user ?after)"
    let ?st2 = "snd (fetchSessions (decoded (next_request ?st1) (fst g)) user ?st1)"
    have one: "distinct (map sid (sessions ?st1))"
      using h l by (rule fetch_keeps_distinct)
    then have two: "distinct (map sid (sessions ?st2))"
      using l by (rule fetch_keeps_distinct)
    have "set (effect_fetches user (fst g) st ?after) \<subseteq> {?st1, ?st2}"
      by (auto simp add: effect_fetches_def Let_def)
    with h one two show ?thesis
      by (auto simp add: gesture_states_def)
  qed
qed

lemma parse_stringify_boolean:
  "JSON_parse other (JSON_stringify (JSBoolean b)) = Inr (JSBoolean b)"
  by (simp add: JSON_parse_def JSON_stringify_def json_whitespace_def starts_json_value_def)

subsection \<open>Deleting a session\<close>

text \<open>
  Claim C1. After a successful \<^verbatim>\<open>handleDeleteSession(s)\<close> the entry is gone from the
  list and, when the deleted session was the current one, the current session is the
  first element of the remaining list; with list = [A, B] and current = A, deleting A
  gives list = [B] and current = B.

  The code reads \<^verbatim>\<open>sessions[0]\<close> from the list of the render that created the handler,
  which still holds the deleted session. Evaluated on the scenario of the claim: the list
  becomes [B], the current session stays A, the session that was deleted.
\<close>

theorem delete_current_selects_deleted_session:
  "fst (handleDeleteSession api_accepting alice 1 state_AB) = Normal ()
   \<and> sessions (snd (handleDeleteSession api_accepting alice 1 state_AB)) = [session_B]
   \<and> session (snd (handleDeleteSession api_accepting alice 1 state_AB)) = Some session_A
   \<and> session (snd (handleDeleteSession api_accepting alice 1 state_AB)) \<noteq> Some session_B"
  by (simp add: handleDeleteSession_def action_defs sample_defs)

subsection \<open>Identifiers in the list\<close>

text \<open>
  Claim C2, as amended. Take a sequence of saves (creates and updates) and deletes, each
  followed by the reloads that the effect starts when the current session has changed,
  from a list with pairwise distinct identifiers. Provided every session the backend
  returns from a create carries an identifier that no session of the list has at that
  moment, and every list that \<^verbatim>\<open>listSessions\<close> returns to a reload has pairwise distinct
  identifiers, the list has pairwise distinct identifiers in every state the manager
  goes through.
\<close>

theorem identifiers_stay_distinct:
  assumes "distinct (map sid (sessions st))"
    and "backend_ids_fit user gs st"
  shows "\<forall>s \<in> set (visited user gs st). distinct (map sid (sessions s))"
  using assms
proof (induction gs arbitrary: st)
  case Nil
  then show ?case by simp
next
  case (Cons g gs)
  from Cons.prems have fit: "created_fresh user g st" "listed_distinct user g st"
    and rest: "backend_ids_fit user gs (gesture_step user g st)"
    by simp_all
  have here: "\<forall>s \<in> set (gesture_states user g st). distinct (map sid (sessions s))"
    using Cons.prems(1) fit by (rule gesture_states_keep_distinct)
  have "gesture_step user g st \<in> set (gesture_states user g st)"
    by (simp add: gesture_step_def gesture_states_def)
  with here have "distinct (map sid (sessions (gesture_step user g st)))"
    by blast
  then have later:
    "\<forall>s \<in> set (visited user gs (gesture_step user g st)). distinct (map sid (sessions s))"
    using rest by (rule Cons.IH)
  have "set (butlast (gesture_states user g st)) \<subseteq> set (gesture_states user g st)"
    by (auto dest: in_set_butlastD)
  with here later Cons.prems(1) show ?case
    by auto
qed

text \<open>
  The theorem at work: from list = [A, B] with current = A, create C, update B and
  delete A, the backend listing [A, B] at each reload. The create makes C current, so the
  effect reloads the list; the update and the delete leave the current session alone.
  The identifiers in the list go through [1, 2], [3, 1, 2], [1, 2], [1, 2], [2].
\<close>

theorem identifiers_stay_distinct_witness:
  "distinct (map sid (sessions state_AB))
   \<and> backend_ids_fit alice three_gestures state_AB
   \<and> map (\<lambda>s. map sid (sessions s)) (visited alice three_gestures state_AB)
       = [[Some 1, Some 2], [Some 3, Some 1, Some 2], [Some 1, Some 2], [Some 1, Some 2],
          [Some 2]]
   \<and> list_all (\<lambda>s. distinct (map sid (sessions s))) (visited alice three_gestures state_AB)"
proof -
  have d: "distinct (map sid (sessions state_AB))"
    by (simp add: sample_defs)
  have f: "backend_ids_fit alice three_gestures state_AB"
    by (simp add: created_fresh_def listed_distinct_def sequence_defs
        handleSaveSession_def handleDeleteSession_def fetchSessions_def action_defs
        sample_defs)
  have v: "map (\<lambda>s. map sid (sessions s)) (visited alice three_gestures state_AB)
       = [[Some 1, Some 2], [Some 3, Some 1, Some 2], [Some 1, Some 2], [Some 1, Some 2],
          [Some 2]]"
    by (simp add: sequence_defs handleSaveSession_def handleDeleteSession_def
        fetchSessions_def action_defs sample_defs)
  from identifiers_stay_distinct [OF d f]
  have "list_all (\<lambda>s. distinct (map sid (sessions s))) (visited alice three_gestures state_AB)"
    by (simp add: list_all_iff)
  with d f v show ?thesis
    by simp
qed

text \<open>
  Claim C2 as stated fails: nothing in the manager compares the identifier of a created
  session with those of the list. When the backend answers a create with an identifier
  that is in use, the list holds that identifier twice when the handler returns.
\<close>

theorem identifiers_distinct_counterexample:
  "distinct (map sid (sessions state_AB))
   \<and> map sid (sessions (handler_step alice (api_reusing_id, Save draft_C) state_AB))
       = [Some 1, Some 1, Some 2]
   \<and> \<not> list_all (\<lambda>s. distinct (map sid (sessions s)))
         (visited alice [(api_reusing_id, Save draft_C)] state_AB)"
  by (simp add: sequence_defs handleSaveSession_def fetchSessions_def action_defs sample_defs)

subsection \<open>Updating a session\<close>

text \<open>
  Claim C3. After a successful update (a draft with an identifier), every list entry
  whose identifier equals that of the session returned by \<^verbatim>\<open>updateSession\<close> is that
  returned session, and if the current session has that identifier, the current session
  is the same returned value: list entry and current session are equal.
\<close>

theorem update_replaces_entry_and_current:
  assumes "user = Some u" "email u = Some m" "m \<noteq> []"
    and "sid d = Some i" "i \<noteq> 0"
    and "updateSession api i d m = Inr updated"
  shows "sessions (snd (handleSaveSession api user d st)) =
           map (\<lambda>s. if sid s = sid updated then updated else s) (sessions st)
         \<and> (optional_id (session st) = sid updated \<longrightarrow>
              session (snd (handleSaveSession api user d st)) = Some updated
              \<and> (\<forall>x \<in> set (sessions (snd (handleSaveSession api user d st))).
                    sid x = sid updated \<longrightarrow>
                    session (snd (handleSaveSession api user d st)) = Some x))
         \<and> (optional_id (session st) \<noteq> sid updated \<longrightarrow>
              session (snd (handleSaveSession api user d st)) = session st)"
proof -
  from assms have "\<not> no_email user" "\<not> no_id d"
    and "updateSession api (id_of d) d (email_of user) = Inr updated"
    by (simp_all add: has_email has_id)
  note ok = save_update_ok [OF this]
  show ?thesis
    by (auto simp add: ok(2) ok(3))
qed

text \<open>
  The theorem at work: list = [A, B], current = B, and B is edited. The backend returns
  the edited B; it replaces B in the list and is the current session.
\<close>

theorem update_replaces_entry_and_current_witness:
  "sid edit_B = Some 2
   \<and> updateSession api_accepting 2 edit_B ''alice@example.com''
       = Inr (edit_B\<lparr>owner := Some ''alice@example.com''\<rparr>)
   \<and> session (state_AB\<lparr>session := Some session_B\<rparr>) = Some session_B
   \<and> sessions (snd (handleSaveSession api_accepting alice edit_B
         (state_AB\<lparr>session := Some session_B\<rparr>)))
       = [session_A, edit_B\<lparr>owner := Some ''alice@example.com''\<rparr>]
   \<and> session (snd (handleSaveSession api_accepting alice edit_B
         (state_AB\<lparr>session := Some session_B\<rparr>)))
       = Some (edit_B\<lparr>owner := Some ''alice@example.com''\<rparr>)"
proof -
  let ?st = "state_AB\<lparr>session := Some session_B\<rparr>"
  let ?updated = "edit_B\<lparr>owner := Some ''alice@example.com''\<rparr>"
  have u: "alice = Some \<lparr>email = Some ''alice@example.com''\<rparr>"
    by (simp add: alice_def)
  have e: "email \<lparr>email = Some ''alice@example.com''\<rparr> = Some ''alice@example.com''"
    and n: "''alice@example.com'' \<noteq> []"
    and i: "sid edit_B = Some 2" "(2::int) \<noteq> 0"
    by (simp_all add: edit_B_def)
  have r: "updateSession api_accepting 2 edit_B ''alice@example.com'' = Inr ?updated"
    by (simp add: api_accepting_def edit_B_def)
  note t = update_replaces_entry_and_current [OF u e n i r, where st = ?st]
  have c: "optional_id (session ?st) = sid ?updated"
    and s: "session ?st = Some session_B"
    by (simp_all add: optional_id_def session_B_def edit_B_def)
  from t c have cur: "session (snd (handleSaveSession api_accepting alice edit_B ?st))
      = Some ?updated"
    by blast
  from t have "sessions (snd (handleSaveSession api_accepting alice edit_B ?st))
      = map (\<lambda>s. if sid s = sid ?updated then ?updated else s) (sessions ?st)"
    by blast
  then have lst: "sessions (snd (handleSaveSession api_accepting alice edit_B ?st))
      = [session_A, ?updated]"
    by (simp add: state_AB_def session_A_def session_B_def edit_B_def)
  from i(1) r s lst cur show ?thesis
    by simp
qed

subsection \<open>Creating a session\<close>

text \<open>
  Claim C4. After a successful create (a draft without an identifier), the session
  returned by \<^verbatim>\<open>createSession\<close> is the first element of the list, it is the current
  session, and the editor is closed. When the create fails, the list and the current
  session are unchanged and the editor stays as it was (open).
\<close>

theorem create_prepends_and_selects:
  assumes "user = Some u" "email u = Some m" "m \<noteq> []"
    and "sid d = None \<or> sid d = Some 0"
  shows "(createSession api d m = Inr created \<longrightarrow>
            sessions (snd (handleSaveSession api user d st)) = created # sessions st
            \<and> session (snd (handleSaveSession api user d st)) = Some created
            \<and> isEditorOpen (snd (handleSaveSession api user d st)) = False
            \<and> editingSession (snd (handleSaveSession api user d st)) = None)
         \<and> (createSession api d m = Inl e \<longrightarrow>
            sessions (snd (handleSaveSession api user d st)) = sessions st
            \<and> session (snd (handleSaveSession api user d st)) = session st
            \<and> isEditorOpen (snd (handleSaveSession api user d st)) = isEditorOpen st
            \<and> editingSession (snd (handleSaveSession api user d st)) = editingSession st)"
proof -
  from assms have g: "\<not> no_email user" "no_id d" and m: "email_of user = m"
    by (simp_all add: has_email lacks_id)
  show ?thesis
  proof (intro conjI impI)
    assume "createSession api d m = Inr created"
    with m have c: "createSession api d (email_of user) = Inr created" by simp
    note ok = save_create_ok [OF g c]
    show "sessions (snd (handleSaveSession api user d st)) = created # sessions st"
      and "session (snd (handleSaveSession api user d st)) = Some created"
      and "isEditorOpen (snd (handleSaveSession api user d st)) = False"
      and "editingSession (snd (handleSaveSession api user d st)) = None"
      by (rule ok)+
  next
    assume "createSession api d m = Inl e"
    with m g(2) have c: "if no_id d then createSession api d (email_of user) = Inl e
         else updateSession api (id_of d) d (email_of user) = Inl e" by simp
    note ko = save_fail [OF g(1) c]
    show "sessions (snd (handleSaveSession api user d st)) = sessions st"
      and "session (snd (handleSaveSession api user d st)) = session st"
      and "isEditorOpen (snd (handleSaveSession api user d st)) = isEditorOpen st"
      and "editingSession (snd (handleSaveSession api user d st)) = editingSession st"
      by (rule ko)+
  qed
qed

text \<open>
  The theorem at work, on both sides: list = [] and a create that succeeds with C
  (list = [C], current = C, editor closed); list = [A, B] and a create that fails
  (list = [A, B], current = A, editor open).
\<close>

theorem create_prepends_and_selects_witness:
  "sid draft_C = None
   \<and> createSession api_accepting draft_C ''alice@example.com''
       = Inr (draft_C\<lparr>sid := Some 3, owner := Some ''alice@example.com''\<rparr>)
   \<and> sessions (snd (handleSaveSession api_accepting alice draft_C state_empty))
       = [draft_C\<lparr>sid := Some 3, owner := Some ''alice@example.com''\<rparr>]
   \<and> session (snd (handleSaveSession api_accepting alice draft_C state_empty))
       = Some (draft_C\<lparr>sid := Some 3, owner := Some ''alice@example.com''\<rparr>)
   \<and> isEditorOpen (snd (handleSaveSession api_accepting alice draft_C state_empty)) = False
   \<and> createSession api_failing draft_C ''alice@example.com'' = Inl ValidationError
   \<and> sessions (snd (handleSaveSession api_failing alice draft_C state_AB))
       = [session_A, session_B]
   \<and> session (snd (handleSaveSession api_failing alice draft_C state_AB)) = Some session_A
   \<and> isEditorOpen (snd (handleSaveSession api_failing alice draft_C state_AB)) = True"
proof -
  let ?created = "draft_C\<lparr>sid := Some 3, owner := Some ''alice@example.com''\<rparr>"
  have u: "alice = Some \<lparr>email = Some ''alice@example.com''\<rparr>"
    by (simp add: alice_def)
  have e: "email \<lparr>email = Some ''alice@example.com''\<rparr> = Some ''alice@example.com''"
    and n: "''alice@example.com'' \<noteq> []"
    and i: "sid draft_C = None \<or> sid draft_C = Some 0"
    and d: "sid draft_C = None"
    by (simp_all add: draft_C_def)
  have ok: "createSession api_accepting draft_C ''alice@example.com'' = Inr ?created"
    and ko: "createSession api_failing draft_C ''alice@example.com'' = Inl ValidationError"
    by (simp_all add: api_accepting_def api_failing_def)
  note t1 = create_prepends_and_selects [OF u e n i, where api = api_accepting
      and created = ?created and st = state_empty]
  note t2 = create_prepends_and_selects [OF u e n i, where api = api_failing
      and e = ValidationError and st = state_AB]
  from t1 ok have a:
    "sessions (snd (handleSaveSession api_accepting alice draft_C state_empty))
       = ?created # sessions state_empty"
    "session (snd (handleSaveSession api_accepting alice draft_C state_empty)) = Some ?created"
    "isEditorOpen (snd (handleSaveSession api_accepting alice draft_C state_empty)) = False"
    by blast+
  from t2 ko have b:
    "sessions (snd (handleSaveSession api_failing alice draft_C state_AB)) = sessions state_AB"
    "session (snd (handleSaveSession api_failing alice draft_C state_AB)) = session state_AB"
    "isEditorOpen (snd (handleSaveSession api_failing alice draft_C state_AB))
       = isEditorOpen state_AB"
    by blast+
  have c: "sessions state_empty = []" "sessions state_AB = [session_A, session_B]"
    "session state_AB = Some session_A" "isEditorOpen state_AB = True"
    by (simp_all add: state_empty_def state_AB_def)
  from a b c ok ko d show ?thesis
    by simp
qed

subsection \<open>Failures of the backend\<close>

text \<open>
  Claim C5. For each operation (load, create, update, delete, select), when the call to
  the backend fails, the handler catches the error and returns normally, the list and the
  current session are as before the call, and an error notification is surfaced.
\<close>

theorem api_failure_is_contained:
  assumes "user = Some u" "email u = Some m" "m \<noteq> []"
  shows "(listSessions api m = Inl e \<longrightarrow>
            failure_contained (fetchSessions api user st) st ''Error loading sessions'')
         \<and> ((sid d = None \<or> sid d = Some 0) \<and> createSession api d m = Inl e \<longrightarrow>
            failure_contained (handleSaveSession api user d st) st ''Error saving session'')
         \<and> (sid d = Some i \<and> i \<noteq> 0 \<and> updateSession api i d m = Inl e \<longrightarrow>
            failure_contained (handleSaveSession api user d st) st ''Error saving session'')
         \<and> (deleteSession api i m = Inl e \<longrightarrow>
            failure_contained (handleDeleteSession api user i st) st
              ''Error deleting session'')
         \<and> (sid s = Some i \<and> i \<noteq> 0 \<and> getSession api i m = Inl e \<longrightarrow>
            failure_contained (handleSelectSession api user s st) st
              ''Error loading session'')"
proof -
  from assms have g: "\<not> no_email user" and m: "email_of user = m"
    by (simp_all add: has_email)
  have load: "failure_contained (fetchSessions api user st) st ''Error loading sessions''"
    if "listSessions api m = Inl e"
    using fetch_fail [OF g, of api e st] that m by (simp add: failure_contained_def)
  have create: "failure_contained (handleSaveSession api user d st) st ''Error saving session''"
    if "sid d = None \<or> sid d = Some 0" "createSession api d m = Inl e"
  proof -
    from that m have "if no_id d then createSession api d (email_of user) = Inl e
         else updateSession api (id_of d) d (email_of user) = Inl e"
      by (simp add: lacks_id)
    from save_fail [OF g this] show ?thesis by (simp add: failure_contained_def)
  qed
  have update: "failure_contained (handleSaveSession api user d st) st ''Error saving session''"
    if "sid d = Some i" "i \<noteq> 0" "updateSession api i d m = Inl e"
  proof -
    from that m have "if no_id d then createSession api d (email_of user) = Inl e
         else updateSession api (id_of d) d (email_of user) = Inl e"
      by (simp add: has_id)
    from save_fail [OF g this] show ?thesis by (simp add: failure_contained_def)
  qed
  have delete: "failure_contained (handleDeleteSession api user i st) st
      ''Error deleting session''"
    if "deleteSession api i m = Inl e"
    using delete_fail [OF g, of api i e st] that m by (simp add: failure_contained_def)
  have select: "failure_contained (handleSelectSession api user s st) st
      ''Error loading session''"
    if "sid s = Some i" "i \<noteq> 0" "getSession api i m = Inl e"
  proof -
    from that m have "\<not> no_id s" "getSession api (id_of s) (email_of user) = Inl e"
      by (simp_all add: has_id)
    from select_fail [OF g this] show ?thesis by (simp add: failure_contained_def)
  qed
  from load create update delete select show ?thesis
    by blast
qed

text \<open>
  The theorem at work: a backend that rejects every call, list = [A, B], current = A.
  Each of the five operations returns normally and leaves list = [A, B], current = A.
\<close>

theorem api_failure_is_contained_witness:
  "listSessions api_failing ''alice@example.com'' = Inl NetworkError
   \<and> deleteSession api_failing 2 ''alice@example.com'' = Inl NotFoundError
   \<and> failure_contained (fetchSessions api_failing alice state_AB) state_AB
       ''Error loading sessions''
   \<and> failure_contained (handleSaveSession api_failing alice draft_C state_AB) state_AB
       ''Error saving session''
   \<and> failure_contained (handleSaveSession api_failing alice edit_B state_AB) state_AB
       ''Error saving session''
   \<and> failure_contained (handleDeleteSession api_failing alice 2 state_AB) state_AB
       ''Error deleting session''
   \<and> failure_contained (handleSelectSession api_failing alice session_B state_AB) state_AB
       ''Error loading session''
   \<and> sessions (snd (handleDeleteSession api_failing alice 2 state_AB))
       = [session_A, session_B]
   \<and> session (snd (handleDeleteSession api_failing alice 2 state_AB)) = Some session_A"
proof -
  have u: "alice = Some \<lparr>email = Some ''alice@example.com''\<rparr>"
    by (simp add: alice_def)
  have e: "email \<lparr>email = Some ''alice@example.com''\<rparr> = Some ''alice@example.com''"
    and n: "''alice@example.com'' \<noteq> []"
    by simp_all
  have f: "listSessions api_failing ''alice@example.com'' = Inl NetworkError"
    "createSession api_failing draft_C ''alice@example.com'' = Inl ValidationError"
    "updateSession api_failing 2 edit_B ''alice@example.com'' = Inl NotFoundError"
    "deleteSession api_failing 2 ''alice@example.com'' = Inl NotFoundError"
    "getSession api_failing 2 ''alice@example.com'' = Inl NotFoundError"
    by (simp_all add: api_failing_def)
  have i: "sid draft_C = None \<or> sid draft_C = Some 0" "sid edit_B = Some 2"
    "sid session_B = Some 2" "(2::int) \<noteq> 0"
    by (simp_all add: draft_C_def edit_B_def session_B_def)
  from api_failure_is_contained [OF u e n, where api = api_failing and e = NetworkError
      and st = state_AB] f(1)
  have load: "failure_contained (fetchSessions api_failing alice state_AB) state_AB
      ''Error loading sessions''"
    by blast
  from api_failure_is_contained [OF u e n, where api = api_failing and e = ValidationError
      and d = draft_C and st = state_AB] f(2) i(1)
  have create: "failure_contained (handleSaveSession api_failing alice draft_C state_AB)
      state_AB ''Error saving session''"
    by blast
  note t = api_failure_is_contained [OF u e n, where api = api_failing and e = NotFoundError
      and d = edit_B and i = 2 and s = session_B and st = state_AB]
  from t f(3) i(2,4)
  have update: "failure_contained (handleSaveSession api_failing alice edit_B state_AB)
      state_AB ''Error saving session''"
    by blast
  from t f(4)
  have delete: "failure_contained (handleDeleteSession api_failing alice 2 state_AB)
      state_AB ''Error deleting session''"
    by blast
  from t f(5) i(3,4)
  have select: "failure_contained (handleSelectSession api_failing alice session_B state_AB)
      state_AB ''Error loading session''"
    by blast
  from delete have "sessions (snd (handleDeleteSession api_failing alice 2 state_AB))
       = [session_A, session_B]
     \<and> session (snd (handleDeleteSession api_failing alice 2 state_AB)) = Some session_A"
    by (simp add: failure_contained_def state_AB_def)
  with f(1) f(4) load create update delete select show ?thesis
    by blast
qed

subsection \<open>Loading the list\<close>

text \<open>
  Claim C7. When \<^verbatim>\<open>fetchSessions\<close> succeeds, the list is the sequence returned by
  \<^verbatim>\<open>listSessions\<close>, and if no session was selected and that sequence is not empty,
  its element at index 0 is the current session (otherwise the current session is
  unchanged). When it fails, the list is unchanged, an error notification is surfaced,
  and the one request made is the only one: there is no retry.
\<close>

theorem fetchSessions_replaces_list:
  assumes "user = Some u" "email u = Some m" "m \<noteq> []"
  shows "(listSessions api m = Inr data \<longrightarrow>
            sessions (snd (fetchSessions api user st)) = data
            \<and> (session st = None \<and> data \<noteq> [] \<longrightarrow>
                 session (snd (fetchSessions api user st)) = Some (data ! 0))
            \<and> (session st \<noteq> None \<or> data = [] \<longrightarrow>
                 session (snd (fetchSessions api user st)) = session st))
         \<and> (listSessions api m = Inl e \<longrightarrow>
            sessions (snd (fetchSessions api user st)) = sessions st
            \<and> notifications (snd (fetchSessions api user st)) =
                 notifications st @ [ErrorMessage ''Error loading sessions'']
            \<and> api_calls (snd (fetchSessions api user st)) = api_calls st @ [ListSessions m])"
proof -
  from assms have g: "\<not> no_email user" and m: "email_of user = m"
    by (simp_all add: has_email)
  have ok: "sessions (snd (fetchSessions api user st)) = data
      \<and> (session st = None \<and> data \<noteq> [] \<longrightarrow>
           session (snd (fetchSessions api user st)) = Some (data ! 0))
      \<and> (session st \<noteq> None \<or> data = [] \<longrightarrow>
           session (snd (fetchSessions api user st)) = session st)"
    if "listSessions api m = Inr data"
  proof -
    from that m have "listSessions api (email_of user) = Inr data" by simp
    note r = fetch_ok [OF g this, of st]
    show ?thesis by (auto simp add: r(2) r(3))
  qed
  have ko: "sessions (snd (fetchSessions api user st)) = sessions st
      \<and> notifications (snd (fetchSessions api user st)) =
           notifications st @ [ErrorMessage ''Error loading sessions'']
      \<and> api_calls (snd (fetchSessions api user st)) = api_calls st @ [ListSessions m]"
    if "listSessions api m = Inl e"
  proof -
    from that m have "listSessions api (email_of user) = Inl e" by simp
    note r = fetch_fail [OF g this, of st]
    from r(2) r(4) r(5) m show ?thesis by simp
  qed
  from ok ko show ?thesis
    by blast
qed

text \<open>
  The theorem at work: with nothing loaded and nothing selected, a load that returns
  [A, B] gives list = [A, B] and current = A; with list = [A, B], a load that fails
  leaves the list and makes one request.
\<close>

theorem fetchSessions_replaces_list_witness:
  "listSessions api_accepting ''alice@example.com'' = Inr [session_A, session_B]
   \<and> session state_empty = None
   \<and> sessions (snd (fetchSessions api_accepting alice state_empty)) = [session_A, session_B]
   \<and> session (snd (fetchSessions api_accepting alice state_empty)) = Some session_A
   \<and> listSessions api_failing ''alice@example.com'' = Inl NetworkError
   \<and> sessions (snd (fetchSessions api_failing alice state_AB)) = [session_A, session_B]
   \<and> notifications (snd (fetchSessions api_failing alice state_AB))
       = [ErrorMessage ''Error loading sessions'']
   \<and> api_calls (snd (fetchSessions api_failing alice state_AB))
       = [ListSessions ''alice@example.com'']"
proof -
  have u: "alice = Some \<lparr>email = Some ''alice@example.com''\<rparr>"
    by (simp add: alice_def)
  have e: "email \<lparr>email = Some ''alice@example.com''\<rparr> = Some ''alice@example.com''"
    and n: "''alice@example.com'' \<noteq> []"
    by simp_all
  have ok: "listSessions api_accepting ''alice@example.com'' = Inr [session_A, session_B]"
    and ko: "listSessions api_failing ''alice@example.com'' = Inl NetworkError"
    by (simp_all add: api_accepting_def api_failing_def)
  have c: "session state_empty = None" "[session_A, session_B] \<noteq> []"
    "[session_A, session_B] ! 0 = session_A"
    "sessions state_AB = [session_A, session_B]" "notifications state_AB = []"
    "api_calls state_AB = []"
    by (simp_all add: state_empty_def state_AB_def)
  note t1 = fetchSessions_replaces_list [OF u e n, where api = api_accepting
      and data = "[session_A, session_B]" and st = state_empty]
  note t2 = fetchSessions_replaces_list [OF u e n, where api = api_failing
      and e = NetworkError and st = state_AB]
  from t1 ok c(1,2) have a:
    "sessions (snd (fetchSessions api_accepting alice state_empty)) = [session_A, session_B]"
    "session (snd (fetchSessions api_accepting alice state_empty))
       = Some ([session_A, session_B] ! 0)"
    by blast+
  from t2 ko have b:
    "sessions (snd (fetchSessions api_failing alice state_AB)) = sessions state_AB"
    "notifications (snd (fetchSessions api_failing alice state_AB)) =
       notifications state_AB @ [ErrorMessage ''Error loading sessions'']"
    "api_calls (snd (fetchSessions api_failing alice state_AB))
       = api_calls state_AB @ [ListSessions ''alice@example.com'']"
    by blast+
  from a b c ok ko show ?thesis
    by simp
qed

subsection \<open>Selecting a session\<close>

text \<open>
  Claim C8. For a session B with an identifier, \<^verbatim>\<open>handleSelectSession(B)\<close> calls
  \<^verbatim>\<open>getSession(B.id, user)\<close>; on success the record it returns (not B) is the current
  session, on failure the current session is the one before the call.
\<close>

theorem select_sets_fetched_record:
  assumes "user = Some u" "email u = Some m" "m \<noteq> []"
    and "sid B = Some i" "i \<noteq> 0"
  shows "api_calls (snd (handleSelectSession api user B st)) = api_calls st @ [GetSession i m]
         \<and> (getSession api i m = Inr full \<longrightarrow>
              session (snd (handleSelectSession api user B st)) = Some full)
         \<and> (getSession api i m = Inl e \<longrightarrow>
              session (snd (handleSelectSession api user B st)) = session st)"
proof -
  from assms have g: "\<not> no_email user" "\<not> no_id B"
    and m: "email_of user = m" "id_of B = i"
    by (simp_all add: has_email has_id)
  show ?thesis
  proof (cases "getSession api i m")
    case (Inl x)
    with m have "getSession api (id_of B) (email_of user) = Inl x" by simp
    note r = select_fail [OF g this, of st]
    from r(3) r(5) m Inl show ?thesis by simp
  next
    case (Inr x)
    with m have "getSession api (id_of B) (email_of user) = Inr x" by simp
    note r = select_ok [OF g this, of st]
    from r(3) r(4) m Inr show ?thesis by simp
  qed
qed

text \<open>
  The theorem at work: list = [A, B], current = A, select B (identifier 2). The request is
  \<^verbatim>\<open>getSession(2, user)\<close>; when it succeeds the current session is the full record
  from the backend, when it fails the current session is still A.
\<close>

theorem select_sets_fetched_record_witness:
  "sid session_B = Some 2
   \<and> api_calls (snd (handleSelectSession api_accepting alice session_B state_AB))
       = [GetSession 2 ''alice@example.com'']
   \<and> session (snd (handleSelectSession api_accepting alice session_B state_AB))
       = Some \<lparr>sid = Some 2, owner = Some ''alice@example.com'',
               content = Some ''full record'', object = (0, 5)\<rparr>
   \<and> getSession api_failing 2 ''alice@example.com'' = Inl NotFoundError
   \<and> api_calls (snd (handleSelectSession api_failing alice session_B state_AB))
       = [GetSession 2 ''alice@example.com'']
   \<and> session (snd (handleSelectSession api_failing alice session_B state_AB))
       = Some session_A"
proof -
  let ?full = "\<lparr>sid = Some 2, owner = Some ''alice@example.com'',
      content = Some ''full record'', object = (0, 5)\<rparr>"
  have u: "alice = Some \<lparr>email = Some ''alice@example.com''\<rparr>"
    by (simp add: alice_def)
  have e: "email \<lparr>email = Some ''alice@example.com''\<rparr> = Some ''alice@example.com''"
    and n: "''alice@example.com'' \<noteq> []"
    and i: "sid session_B = Some 2" "(2::int) \<noteq> 0"
    by (simp_all add: session_B_def)
  have ok: "getSession api_accepting 2 ''alice@example.com'' = Inr ?full"
    and ko: "getSession api_failing 2 ''alice@example.com'' = Inl NotFoundError"
    by (simp_all add: api_accepting_def api_failing_def)
  have c: "api_calls state_AB = []" "session state_AB = Some session_A"
    by (simp_all add: state_AB_def)
  note t1 = select_sets_fetched_record [OF u e n i, where api = api_accepting
      and full = ?full and st = state_AB]
  note t2 = select_sets_fetched_record [OF u e n i, where api = api_failing
      and e = NotFoundError and st = state_AB]
  from t1 ok have a:
    "api_calls (snd (handleSelectSession api_accepting alice session_B state_AB))
       = api_calls state_AB @ [GetSession 2 ''alice@example.com'']"
    "session (snd (handleSelectSession api_accepting alice session_B state_AB)) = Some ?full"
    by blast+
  from t2 ko have b:
    "api_calls (snd (handleSelectSession api_failing alice session_B state_AB))
       = api_calls state_AB @ [GetSession 2 ''alice@example.com'']"
    "session (snd (handleSelectSession api_failing alice session_B state_AB))
       = session state_AB"
    by blast+
  from a b c i(1) ko show ?thesis
    by simp
qed

text \<open>
  Claim C10. For a session whose identifier is absent (missing, or the number 0),
  \<^verbatim>\<open>handleSelectSession\<close> returns at once: the state is the one before the call, so no
  request was made, the list and the current session are unchanged and nothing was
  notified.
\<close>

theorem select_without_identifier_is_no_op:
  assumes "sid s = None \<or> sid s = Some 0"
  shows "handleSelectSession api user s st = (Normal (), st)"
proof -
  from assms have "no_id s" by (rule lacks_id)
  then show ?thesis
    by (simp add: handleSelectSession_def ret_def)
qed

text \<open>
  The theorem at work: a session with identifier 0, selected by a user with an email.
\<close>

theorem select_without_identifier_is_no_op_witness:
  "sid summary_zero = Some 0
   \<and> handleSelectSession api_accepting alice summary_zero state_AB = (Normal (), state_AB)"
proof -
  have z: "sid summary_zero = Some 0"
    by (simp add: summary_zero_def)
  then have "sid summary_zero = None \<or> sid summary_zero = Some 0" ..
  from select_without_identifier_is_no_op [OF this] z show ?thesis
    by simp
qed

subsection \<open>No user identifier\<close>

text \<open>
  Claim C9. When there is no user, or the user's email is missing or empty, each of
  \<^verbatim>\<open>fetchSessions\<close>, \<^verbatim>\<open>handleSaveSession\<close>, \<^verbatim>\<open>handleDeleteSession\<close> and
  \<^verbatim>\<open>handleSelectSession\<close> returns at once: the state is the one before the call, so no
  request was made, the list and the current session are unchanged and nothing was
  notified.
\<close>

theorem absent_user_is_no_op:
  assumes "user = None \<or> (\<exists>u. user = Some u \<and> (email u = None \<or> email u = Some []))"
  shows "fetchSessions api user st = (Normal (), st)
         \<and> handleSaveSession api user d st = (Normal (), st)
         \<and> handleDeleteSession api user i st = (Normal (), st)
         \<and> handleSelectSession api user s st = (Normal (), st)"
proof -
  from assms have "no_email user"
    by (auto simp add: no_email_def)
  from guard_returns [OF this] show ?thesis
    by simp
qed

text \<open>
  The theorem at work: a user whose email is the empty string.
\<close>

theorem absent_user_is_no_op_witness:
  "visitor = Some \<lparr>email = Some []\<rparr>
   \<and> fetchSessions api_accepting visitor state_AB = (Normal (), state_AB)
   \<and> handleSaveSession api_accepting visitor draft_C state_AB = (Normal (), state_AB)
   \<and> handleDeleteSession api_accepting visitor 1 state_AB = (Normal (), state_AB)
   \<and> handleSelectSession api_accepting visitor session_B state_AB = (Normal (), state_AB)"
proof -
  have v: "visitor = Some \<lparr>email = Some []\<rparr>"
    by (simp add: visitor_def)
  then have "\<exists>u. visitor = Some u \<and> (email u = None \<or> email u = Some [])"
    by (intro exI [of _ "\<lparr>email = Some []\<rparr>"]) simp
  then have "visitor = None
      \<or> (\<exists>u. visitor = Some u \<and> (email u = None \<or> email u = Some []))" ..
  from absent_user_is_no_op [OF this] v show ?thesis
    by blast
qed

subsection \<open>The sidebar flag\<close>

text \<open>
  Claim C6, as amended. The flag goes through local storage under the key
  \<^verbatim>\<open>sessionSidebar\<close>: a toggle writes the resulting boolean at once, the initial read
  after it returns that boolean, a stored \<^verbatim>\<open>true\<close> or \<^verbatim>\<open>false\<close> is read back as such,
  and an absent key reads as open. A stored text that \<^verbatim>\<open>JSON.parse\<close> rejects gets no
  default: the initial read throws the error of \<^verbatim>\<open>JSON.parse\<close>.
\<close>

theorem sidebar_flag_round_trip:
  "localStorage (onToggle True st) ''sessionSidebar''
     = Some (JSON_stringify (JSBoolean (\<not> truthy (isSidebarOpen st))))
   \<and> initialSidebarOpen other True (localStorage (onToggle True st))
     = Inr (JSBoolean (\<not> truthy (isSidebarOpen st)))
   \<and> initialSidebarOpen other True (storage(''sessionSidebar'' \<mapsto> JSON_stringify (JSBoolean b)))
     = Inr (JSBoolean b)
   \<and> (storage ''sessionSidebar'' = None \<longrightarrow>
        initialSidebarOpen other True storage = Inr (JSBoolean True))
   \<and> (storage ''sessionSidebar'' = Some stored \<and> JSON_parse other stored = Inl e \<longrightarrow>
        initialSidebarOpen other True storage = Inl e)"
proof -
  have written: "localStorage (onToggle True st) ''sessionSidebar''
      = Some (JSON_stringify (JSBoolean (\<not> truthy (isSidebarOpen st))))"
    by (simp add: onToggle_def sidebarEffect_def)
  have read: "initialSidebarOpen other True stg = Inr (JSBoolean c)"
    if "stg ''sessionSidebar'' = Some (JSON_stringify (JSBoolean c))" for stg c
    using that by (simp add: initialSidebarOpen_def parse_stringify_boolean)
  have absent: "initialSidebarOpen other True storage = Inr (JSBoolean True)"
    if "storage ''sessionSidebar'' = None"
    using that by (simp add: initialSidebarOpen_def)
  have rejected: "initialSidebarOpen other True storage = Inl e"
    if "storage ''sessionSidebar'' = Some stored" "JSON_parse other stored = Inl e"
    using that by (simp add: initialSidebarOpen_def)
  from written
    read [of "localStorage (onToggle True st)" "\<not> truthy (isSidebarOpen st)", OF written]
    read [of "storage(''sessionSidebar'' \<mapsto> JSON_stringify (JSBoolean b))" b]
    absent rejected
  show ?thesis
    by simp
qed

text \<open>
  The theorem at work: the sidebar is open and is toggled, so \<^verbatim>\<open>false\<close> is written and
  read back; nothing stored reads as open; the stored text \<^verbatim>\<open>open\<close> makes the read
  throw.
\<close>

theorem sidebar_flag_round_trip_witness:
  "localStorage (onToggle True state_AB) ''sessionSidebar'' = Some ''false''
   \<and> initialSidebarOpen other_texts True (localStorage (onToggle True state_AB))
       = Inr (JSBoolean False)
   \<and> initialSidebarOpen other_texts True (Map.empty(''sessionSidebar'' \<mapsto> ''true''))
       = Inr (JSBoolean True)
   \<and> initialSidebarOpen other_texts True Map.empty = Inr (JSBoolean True)
   \<and> JSON_parse other_texts ''open'' = Inl SyntaxError
   \<and> initialSidebarOpen other_texts True (Map.empty(''sessionSidebar'' \<mapsto> ''open''))
       = Inl SyntaxError"
proof -
  have c: "truthy (isSidebarOpen state_AB)" "JSON_stringify (JSBoolean False) = ''false''"
    "JSON_stringify (JSBoolean True) = ''true''"
    by (simp_all add: truthy_def state_AB_def JSON_stringify_def)
  have p: "JSON_parse other_texts ''open'' = Inl SyntaxError"
    by (simp add: JSON_parse_def json_whitespace_def starts_json_value_def)
  have k: "(Map.empty(''sessionSidebar'' \<mapsto> ''open'')) ''sessionSidebar'' = Some ''open''"
    "(Map.empty :: string \<rightharpoonup> string) ''sessionSidebar'' = None"
    by simp_all
  note t1 = sidebar_flag_round_trip [where st = state_AB and other = other_texts
      and storage = Map.empty and b = True]
  note t2 = sidebar_flag_round_trip [where other = other_texts
      and storage = "Map.empty(''sessionSidebar'' \<mapsto> ''open'')" and stored = "''open''"
      and e = SyntaxError]
  from t1 k(2) have a:
    "localStorage (onToggle True state_AB) ''sessionSidebar''
       = Some (JSON_stringify (JSBoolean (\<not> truthy (isSidebarOpen state_AB))))"
    "initialSidebarOpen other_texts True (localStorage (onToggle True state_AB))
       = Inr (JSBoolean (\<not> truthy (isSidebarOpen state_AB)))"
    "initialSidebarOpen other_texts True
       (Map.empty(''sessionSidebar'' \<mapsto> JSON_stringify (JSBoolean True)))
       = Inr (JSBoolean True)"
    "initialSidebarOpen other_texts True Map.empty = Inr (JSBoolean True)"
    by blast+
  from t2 k(1) p have b:
    "initialSidebarOpen other_texts True (Map.empty(''sessionSidebar'' \<mapsto> ''open''))
       = Inl SyntaxError"
    by blast
  from a b c p show ?thesis
    by simp
qed

text \<open>
  Claim C6 as stated fails where it says that an unparsable stored value reads as open:
  the initializer calls \<^verbatim>\<open>JSON.parse\<close> outside any \<^verbatim>\<open>try\<close>, so with the text
  \<^verbatim>\<open>open\<close> stored under the key the read is a \<^verbatim>\<open>SyntaxError\<close>, not \<^verbatim>\<open>true\<close>.
\<close>

theorem sidebar_unparsable_counterexample:
  "initialSidebarOpen other_texts True (Map.empty(''sessionSidebar'' \<mapsto> ''open''))
     = Inl SyntaxError
   \<and> initialSidebarOpen other_texts True (Map.empty(''sessionSidebar'' \<mapsto> ''open''))
     \<noteq> Inr (JSBoolean True)"
  by (simp add: initialSidebarOpen_def JSON_parse_def json_whitespace_def starts_json_value_def)

end
